theory Spec2Isabelle
  imports Main
begin

section \<open>Strings\<close>

text \<open>
  A JavaScript string is modelled as a \<^typ>\<open>string\<close> holding its UTF-8 bytes. Every
  pattern the program searches for (\<open>=\<close>, \<open>.md\<close>, \<open>.pdf\<close>) is ASCII, and an ASCII byte
  never occurs inside the encoding of another character, so splitting, suffix tests and
  replacement act on the bytes as they act on the UTF-16 units of the original.
\<close>

text \<open>\<open>s.split(c)\<close> for a one-character separator: never empty, one more piece than
  there are separators.\<close>

fun split :: "char \<Rightarrow> string \<Rightarrow> string list" where
  "split c [] = [[]]"
| "split c (x # xs) =
     (if x = c then [] # split c xs
      else (case split c xs of [] \<Rightarrow> [[x]] | y # ys \<Rightarrow> (x # y) # ys))"

text \<open>\<open>s.endsWith(suf)\<close>.\<close>

definition endsWith :: "string \<Rightarrow> string \<Rightarrow> bool" where
  "endsWith s suf = (take (length suf) (rev s) = rev suf)"

text \<open>\<open>s.startsWith(pat)\<close>, used by the two searches below.\<close>

fun startsWith :: "string \<Rightarrow> string \<Rightarrow> bool" where
  "startsWith s [] = True"
| "startsWith [] (p # ps) = False"
| "startsWith (c # cs) (p # ps) = (c = p \<and> startsWith cs ps)"

text \<open>\<open>s.replace(pat, rep)\<close> with a string pattern: the first occurrence of \<open>pat\<close>,
  scanning from the left, is replaced, and a string without occurrence is returned
  unchanged. None of the replacement texts of the program contains \<open>$\<close>, so the
  replacement is inserted literally.\<close>

fun replace :: "string \<Rightarrow> string \<Rightarrow> string \<Rightarrow> string" where
  "replace [] pat rep = (if pat = [] then rep else [])"
| "replace (c # cs) pat rep =
     (if startsWith (c # cs) pat then rep @ drop (length pat) (c # cs)
      else c # replace cs pat rep)"

text \<open>\<open>s.includes(pat)\<close>: some position of \<open>s\<close> starts an occurrence of \<open>pat\<close>.\<close>

fun includes_str :: "string \<Rightarrow> string \<Rightarrow> bool" where
  "includes_str [] pat = (pat = [])"
| "includes_str (c # cs) pat = (startsWith (c # cs) pat \<or> includes_str cs pat)"

section \<open>The path module\<close>

text \<open>
  \<open>node:path\<close> is a library outside the repository. The program uses two of its
  functions, which the model takes as a parameter: a record of \<open>path.resolve\<close>, applied
  to two arguments, and \<open>path.basename\<close>.
\<close>

record pathlib =
  resolve :: "string \<Rightarrow> string \<Rightarrow> string"
  basename :: "string \<Rightarrow> string"

text \<open>
  The POSIX flavour of the library, after its documentation, for evaluating the program
  on concrete paths. \<open>pwd\<close> is the working directory of the process, which
  \<open>path.resolve\<close> falls back to when its arguments give no absolute path.
\<close>

fun join :: "string list \<Rightarrow> string" where
  "join [] = []"
| "join [s] = s"
| "join (s # t # ss) = s @ ''/'' @ join (t # ss)"

text \<open>Normalisation of the segments of a path: empty segments and \<open>.\<close> vanish, \<open>..\<close>
  removes the segment before it; above the top it is kept only in a relative path.
  The segments kept so far are accumulated in reverse.\<close>

fun normalizeString :: "bool \<Rightarrow> string list \<Rightarrow> string list \<Rightarrow> string list" where
  "normalizeString allowAboveRoot acc [] = rev acc"
| "normalizeString allowAboveRoot acc (s # ss) =
     (if s = [] \<or> s = ''.'' then normalizeString allowAboveRoot acc ss
      else if s = ''..'' then
        (case acc of
           [] \<Rightarrow> normalizeString allowAboveRoot (if allowAboveRoot then [''..''] else []) ss
         | a # as \<Rightarrow>
             if a = ''..''
             then normalizeString allowAboveRoot (if allowAboveRoot then ''..'' # acc else acc) ss
             else normalizeString allowAboveRoot as ss)
      else normalizeString allowAboveRoot (s # acc) ss)"

text \<open>One round of the right-to-left loop of \<open>path.resolve\<close>: an empty argument is
  skipped, and nothing is prepended once the path is absolute.\<close>

definition prepend :: "string \<Rightarrow> string \<times> bool \<Rightarrow> string \<times> bool" where
  "prepend p ra =
     (if snd ra \<or> p = [] then ra else (p @ ''/'' @ fst ra, hd p = CHR ''/''))"

definition posix_resolve :: "string \<Rightarrow> string \<Rightarrow> string \<Rightarrow> string" where
  "posix_resolve pwd cwd p =
     (let ra = prepend pwd (prepend cwd (prepend p ([], False)));
          segs = normalizeString (\<not> snd ra) [] (split (CHR ''/'') (fst ra))
      in if snd ra then ''/'' @ join segs
         else if segs \<noteq> [] then join segs else ''.'')"

text \<open>\<open>path.basename\<close>: trailing slashes are dropped, then the text after the last slash
  is returned.\<close>

definition posix_basename :: "string \<Rightarrow> string" where
  "posix_basename p =
     rev (takeWhile (\<lambda>c. c \<noteq> CHR ''/'') (dropWhile (\<lambda>c. c = CHR ''/'') (rev p)))"

definition posix :: "string \<Rightarrow> pathlib" where
  "posix pwd = \<lparr>resolve = posix_resolve pwd, basename = posix_basename\<rparr>"

section \<open>Errors\<close>

text \<open>
  What a \<open>throw\<close> can carry, as far as \<open>main\<close> tells the cases apart: an instance of
  \<open>SyntaxError\<close>, another instance of \<open>Error\<close> with its name and message, or a value that
  is no \<open>Error\<close> at all.
\<close>

datatype exn = SyntaxError | Error string string | Thrown

section \<open>Options\<close>

record options =
  src :: string
  out :: string
  outputHTML :: bool
  browser :: string
  showTitle :: bool

definition defaults :: options where
  "defaults = \<lparr>src = [], out = [], outputHTML = False,
     browser = ''C:'' @ [CHR 0x5C] @ ''Program Files (x86)'' @ [CHR 0x5C] @ ''Microsoft''
       @ [CHR 0x5C] @ ''Edge'' @ [CHR 0x5C] @ ''Application'' @ [CHR 0x5C] @ ''msedge.exe'',
     showTitle = False\<rparr>"

text \<open>The body of the \<open>forEach\<close> callback: the \<open>switch\<close> on the text before the first
  \<open>=\<close>. \<open>this\<close> is the object under construction.\<close>

definition parseArg :: "pathlib \<Rightarrow> string \<Rightarrow> options \<Rightarrow> string \<Rightarrow> exn + options" where
  "parseArg P cwd this arg =
     (let k = hd (split (CHR ''='') arg); a = split (CHR ''='') arg in
      if k = ''--src'' then
        (if length a \<noteq> 2 \<or> a ! 1 = [] then Inl SyntaxError
         else Inr (this\<lparr>src := (if endsWith (a ! 1) ''.md'' then resolve P cwd (a ! 1)
                                  else resolve P cwd (a ! 1 @ ''.md''))\<rparr>))
      else if k = ''--out'' then
        (if length a \<noteq> 2 \<or> a ! 1 = [] then Inl SyntaxError
         else Inr (this\<lparr>out := (if endsWith (a ! 1) ''.pdf'' then resolve P cwd (a ! 1)
                                  else resolve P cwd (a ! 1 @ ''.pdf''))\<rparr>))
      else if k = ''--outputHTML'' then Inr (this\<lparr>outputHTML := True\<rparr>)
      else if k = ''--showTitle'' then Inr (this\<lparr>showTitle := True\<rparr>)
      else if k = ''--browser'' then
        (if length a \<noteq> 2 \<or> a ! 1 = [] then Inl SyntaxError
         else Inr (this\<lparr>browser := a ! 1\<rparr>))
      else Inl SyntaxError)"

text \<open>\<open>args.forEach\<close>: the arguments in order, stopping at the first \<open>throw\<close>.\<close>

fun forEach :: "('s \<Rightarrow> 'a \<Rightarrow> exn + 's) \<Rightarrow> 'a list \<Rightarrow> 's \<Rightarrow> exn + 's" where
  "forEach f [] s = Inr s"
| "forEach f (x # xs) s = (case f s x of Inl e \<Rightarrow> Inl e | Inr s' \<Rightarrow> forEach f xs s')"

text \<open>The constructor: defaults, the loop over the arguments, then the two checks.\<close>

definition Options :: "pathlib \<Rightarrow> string list \<Rightarrow> string \<Rightarrow> exn + options" where
  "Options P args cwd =
     (case forEach (parseArg P cwd) args defaults of
        Inl e \<Rightarrow> Inl e
      | Inr this \<Rightarrow>
          if src this = [] then Inl SyntaxError
          else Inr (if out this = [] then this\<lparr>out := replace (src this) ''.md'' ''.pdf''\<rparr>
                    else this))"

section \<open>Rendering\<close>

text \<open>The argument of \<open>page.pdf\<close>; the four sides of \<open>margin\<close> are fields of their own.\<close>

record pdfOptions =
  path :: string
  format :: string
  margin_top :: string
  margin_right :: string
  margin_bottom :: string
  margin_left :: string
  displayHeaderFooter :: bool
  headerTemplate :: string
  footerTemplate :: string

text \<open>
  What the program does to the outside, one event for each call in the order the calls
  are made: the two console streams, the file system, the Markdown converter, the browser
  and the end of the process. An event records that the call was made, also when the
  call then fails.
\<close>

datatype event =
    Log string
  | LogError string
  | ReadFile string
  | Marked string
  | WriteFile string string
  | Launch string
  | NewPage
  | SetContent string
  | Pdf pdfOptions
  | Close
  | Exit int

text \<open>
  The outside, as far as the program meets it: the directory of the module
  (\<open>import.meta.dir\<close>) and, for each awaited call, what it returns or throws.
  \<open>readFile_utf8\<close> is \<open>fs.readFile\<close> with the \<open>utf-8\<close> encoding, \<open>readFile_buffer\<close> the
  call without encoding, whose buffer the template turns into its text.
\<close>

record world =
  meta_dir :: string
  readFile_utf8 :: "string \<Rightarrow> exn + string"
  readFile_buffer :: "string \<Rightarrow> exn + string"
  marked :: "string \<Rightarrow> exn + string"
  writeFile :: "string \<Rightarrow> string \<Rightarrow> exn + unit"
  launch :: "string \<Rightarrow> exn + unit"
  newPage :: "exn + unit"
  setContent :: "string \<Rightarrow> exn + unit"
  pdf :: "pdfOptions \<Rightarrow> exn + unit"
  close :: "exn + unit"

text \<open>A run so far: the events in order, and the value returned or the exception
  thrown.\<close>

type_synonym 'a run = "event list \<times> (exn + 'a)"

text \<open>\<open>await\<close> of one call to the outside.\<close>

definition await :: "event \<Rightarrow> exn + 'a \<Rightarrow> 'a run" where
  "await e r = ([e], r)"

text \<open>Sequencing of statements: an exception ends the run, a value is handed on.\<close>

definition andThen :: "'a run \<Rightarrow> ('a \<Rightarrow> 'b run) \<Rightarrow> 'b run" where
  "andThen m f =
     (case m of
        (es, Inl e) \<Rightarrow> (es, Inl e)
      | (es, Inr x) \<Rightarrow> (case f x of (es', r) \<Rightarrow> (es @ es', r)))"

text \<open>The template literal \<open>web\<close>, with its line breaks and indentation.\<close>

definition web :: "string \<Rightarrow> string \<Rightarrow> string \<Rightarrow> string" where
  \<open>web title css html =
     [CHR 0x0A]
     @ ''    <!DOCTYPE html>''
     @ [CHR 0x0A]
     @ ''    <html lang="zh-CN">''
     @ [CHR 0x0A]
     @ ''    <head>''
     @ [CHR 0x0A]
     @ ''      <meta charset="UTF-8">''
     @ [CHR 0x0A]
     @ ''      <title>''
     @ title @ ''</title>''
     @ [CHR 0x0A]
     @ ''      <style>''
     @ css @ ''</style>''
     @ [CHR 0x0A]
     @ ''    </head>''
     @ [CHR 0x0A]
     @ ''    <body>''
     @ [CHR 0x0A]
     @ ''      ''
     @ html @ [CHR 0x0A]
     @ ''    </body>''
     @ [CHR 0x0A]
     @ ''    </html>''
     @ [CHR 0x0A]
     @ ''  ''\<close>

text \<open>The two header templates and the footer template of \<open>page.pdf\<close>.\<close>

definition headerShown :: "string" where
  \<open>headerShown =
     ''<div style="font-size: 9px; font-family: ''
     @ [CHR 0x27, CHR 0xE5, CHR 0xAE, CHR 0x8B, CHR 0xE4, CHR 0xBD, CHR 0x93, CHR 0x27]
     @ ''; color: #333; padding: 5px; margin-left: 0.6cm;"> <span class="title"''
     @ ''></span> </div>''\<close>

definition headerHidden :: "string" where
  \<open>headerHidden =
     ''<div></div>''\<close>

definition footer :: "string" where
  \<open>footer =
     ''<div style="font-size: 9px; font-family: ''
     @ [CHR 0x27, CHR 0xE5, CHR 0xAE, CHR 0x8B, CHR 0xE4, CHR 0xBD, CHR 0x93, CHR 0x27]
     @ ''; color: #333; padding: 5px; margin: 0 auto;">''
     @ [CHR 0xE7, CHR 0xAC, CHR 0xAC]
     @ '' <span class="pageNumber"></span> ''
     @ [CHR 0xE9, CHR 0xA1, CHR 0xB5]
     @ '' / ''
     @ [CHR 0xE5, CHR 0x85, CHR 0xB1]
     @ '' <span class="totalPages"></span> ''
     @ [CHR 0xE9, CHR 0xA1, CHR 0xB5]
     @ ''</div>''\<close>

definition title :: "pathlib \<Rightarrow> options \<Rightarrow> string" where
  "title P options = replace (basename P (src options)) ''.md'' []"

definition pdfArgument :: "options \<Rightarrow> pdfOptions" where
  "pdfArgument options =
     \<lparr>path = out options, format = ''A4'',
      margin_top = ''2cm'', margin_right = ''2.5cm'',
      margin_bottom = ''2cm'', margin_left = ''2.5cm'',
      displayHeaderFooter = True,
      headerTemplate = (if showTitle options then headerShown else headerHidden),
      footerTemplate = footer\<rparr>"

definition renderMarkdown :: "pathlib \<Rightarrow> world \<Rightarrow> options \<Rightarrow> unit run" where
  "renderMarkdown P W options =
     andThen (await (ReadFile (src options)) (readFile_utf8 W (src options))) (\<lambda>md.
     andThen (await (Marked md) (marked W md)) (\<lambda>html.
     andThen (await (ReadFile (resolve P (meta_dir W) ''../css/APS.css''))
                (readFile_buffer W (resolve P (meta_dir W) ''../css/APS.css''))) (\<lambda>css.
     andThen (if outputHTML options
              then await (WriteFile (replace (src options) ''.md'' ''.html'')
                            (web (title P options) css html))
                     (writeFile W (replace (src options) ''.md'' ''.html'')
                            (web (title P options) css html))
              else ([], Inr ())) (\<lambda>_.
     andThen (await (Launch (browser options)) (launch W (browser options))) (\<lambda>_.
     andThen (await NewPage (newPage W)) (\<lambda>_.
     andThen (await (SetContent (web (title P options) css html))
                (setContent W (web (title P options) css html))) (\<lambda>_.
     andThen (await (Pdf (pdfArgument options)) (pdf W (pdfArgument options))) (\<lambda>_.
     await Close (close W)))))))))"

section \<open>The entry point\<close>

text \<open>The four texts written to the console.\<close>

definition msgStart :: "string" where
  \<open>msgStart =
     [CHR 0x0A, CHR 0xE5, CHR 0xBC, CHR 0x80, CHR 0xE5, CHR 0xA7, CHR 0x8B,
        CHR 0xE7, CHR 0x94, CHR 0x9F, CHR 0xE6, CHR 0x88, CHR 0x90, CHR 0x0A]\<close>

definition msgDone :: "string" where
  \<open>msgDone =
     [CHR 0xE7, CHR 0x94, CHR 0x9F, CHR 0xE6, CHR 0x88, CHR 0x90, CHR 0xE6,
        CHR 0x88, CHR 0x90, CHR 0xE5, CHR 0x8A, CHR 0x9F, CHR 0x0A]\<close>

definition msgSyntax :: "string" where
  \<open>msgSyntax =
     [CHR 0x0A, CHR 0xE5, CHR 0x8F, CHR 0x82, CHR 0xE6, CHR 0x95, CHR 0xB0,
        CHR 0xE9, CHR 0x94, CHR 0x99, CHR 0xE8, CHR 0xAF, CHR 0xAF]
     @ '', ''
     @ [CHR 0xE6, CHR 0xAD, CHR 0xA3, CHR 0xE7, CHR 0xA1, CHR 0xAE, CHR 0xE6,
        CHR 0xA0, CHR 0xBC, CHR 0xE5, CHR 0xBC, CHR 0x8F]
     @ '':''
     @ [CHR 0x0A]
     @ ''mdpdf --src=xxx [--out=xxx] [--outputHTML] [--browser=xxx]''
     @ [CHR 0x0A]\<close>

definition msgUnknown :: "string \<Rightarrow> string \<Rightarrow> string" where
  \<open>msgUnknown name message =
     [CHR 0x0A, CHR 0xE6, CHR 0x9C, CHR 0xAA, CHR 0xE7, CHR 0x9F, CHR 0xA5,
        CHR 0xE9, CHR 0x94, CHR 0x99, CHR 0xE8, CHR 0xAF, CHR 0xAF]
     @ '', ''
     @ [CHR 0xE9, CHR 0x94, CHR 0x99, CHR 0xE8, CHR 0xAF, CHR 0xAF, CHR 0xE4,
        CHR 0xBF, CHR 0xA1, CHR 0xE6, CHR 0x81, CHR 0xAF]
     @ '':''
     @ [CHR 0x0A]
     @ name @ [CHR 0x0A] @ message @ [CHR 0x0A]\<close>

text \<open>The \<open>catch\<close> clause: what is written for the exception caught.\<close>

fun report :: "exn \<Rightarrow> event list" where
  "report SyntaxError = [LogError msgSyntax]"
| "report (Error name message) = [LogError (msgUnknown name message)]"
| "report Thrown = []"

text \<open>\<open>main\<close>: the \<open>try\<close> block, the \<open>catch\<close> clause when the block throws, and the
  \<open>finally\<close> clause, which ends the process. The result is every event of the run.\<close>

definition main :: "pathlib \<Rightarrow> world \<Rightarrow> string list \<Rightarrow> string \<Rightarrow> event list" where
  "main P W args cwd =
     (case (case Options P args cwd of
              Inl e \<Rightarrow> ([], Inl e)
            | Inr options \<Rightarrow>
                andThen ([Log msgStart], Inr ()) (\<lambda>_.
                andThen (renderMarkdown P W options) (\<lambda>_.
                ([Log msgDone], Inr ())))) of
        (es, Inl e) \<Rightarrow> es @ report e @ [Exit 0]
      | (es, Inr _) \<Rightarrow> es @ [Exit 0])"

section \<open>Notions of the specification\<close>

text \<open>The key of an argument is its text before the first \<open>=\<close>; the value given with
  it is the text after that \<open>=\<close>.\<close>

definition key :: "string \<Rightarrow> string" where
  "key arg = takeWhile (\<lambda>x. x \<noteq> CHR ''='') arg"

definition rest :: "string \<Rightarrow> string" where
  "rest arg = tl (dropWhile (\<lambda>x. x \<noteq> CHR ''='') arg)"

text \<open>A malformed argument: its key is not one of the five recognised keys, or its key
  is one of the three that require a value and the argument has no \<open>=\<close>, an empty value,
  or a value in several parts (a second \<open>=\<close>).\<close>

definition malformedArg :: "string \<Rightarrow> bool" where
  "malformedArg arg =
     (key arg \<notin> {''--src'', ''--out'', ''--outputHTML'', ''--showTitle'', ''--browser''}
      \<or> (key arg \<in> {''--src'', ''--out'', ''--browser''}
          \<and> (CHR ''='' \<notin> set arg \<or> rest arg = [] \<or> CHR ''='' \<in> set (rest arg))))"

text \<open>A malformed argument list: one of its arguments is malformed, or none of them sets
  \<open>--src\<close> to a non-empty value.\<close>

definition malformed :: "string list \<Rightarrow> bool" where
  "malformed args =
     ((\<exists>a \<in> set args. malformedArg a)
      \<or> \<not> (\<exists>a \<in> set args. key a = ''--src'' \<and> rest a \<noteq> []))"

text \<open>The events that end the process.\<close>

fun isExit :: "event \<Rightarrow> bool" where
  "isExit (Exit n) = True"
| "isExit _ = False"

text \<open>The steps of PDF emission: the calls to the browser.\<close>

fun isEmission :: "event \<Rightarrow> bool" where
  "isEmission (Launch p) = True"
| "isEmission NewPage = True"
| "isEmission (SetContent d) = True"
| "isEmission (Pdf a) = True"
| "isEmission Close = True"
| "isEmission _ = False"

fun isWriteFile :: "event \<Rightarrow> bool" where
  "isWriteFile (WriteFile p d) = True"
| "isWriteFile _ = False"

text \<open>The composed documents handed to the outside in a run: what is written to the
  HTML file and what is loaded into the page.\<close>

fun document :: "event \<Rightarrow> string option" where
  "document (WriteFile p d) = Some d"
| "document (SetContent d) = Some d"
| "document _ = None"

definition documents :: "event list \<Rightarrow> string list" where
  "documents es = List.map_filter document es"

text \<open>\<open>precedes p q es\<close>: in \<open>es\<close>, no event with \<open>q\<close> comes before or at the first
  event with \<open>p\<close>.\<close>

fun precedes :: "('a \<Rightarrow> bool) \<Rightarrow> ('a \<Rightarrow> bool) \<Rightarrow> 'a list \<Rightarrow> bool" where
  "precedes p q [] = True"
| "precedes p q (e # es) = (\<not> q e \<and> (p e \<or> precedes p q es))"

section \<open>Sample surroundings\<close>

definition always :: "'b \<Rightarrow> 'a \<Rightarrow> 'b" where
  "always r x = r"

text \<open>An outside where every call succeeds.\<close>

definition calm :: world where
  "calm = \<lparr>meta_dir = ''/opt/mdpdf/lib'',
     readFile_utf8 = always (Inr ''# Title''),
     readFile_buffer = always (Inr ''h1 { color: red }''),
     marked = always (Inr ''<h1>Title</h1>''),
     writeFile = always (always (Inr ())),
     launch = always (Inr ()),
     newPage = Inr (),
     setContent = always (Inr ()),
     pdf = always (Inr ()),
     close = Inr ()\<rparr>"

text \<open>The options of \<open>mdpdf --src=paper --showTitle\<close> in \<open>/docs\<close>.\<close>

definition paper :: options where
  "paper = defaults\<lparr>src := ''/docs/paper.md'', out := ''/docs/paper.pdf'', showTitle := True\<rparr>"

section \<open>Facts about the string functions\<close>

lemma split_unfold:
  "split c s = takeWhile (\<lambda>x. x \<noteq> c) s
     # (if c \<in> set s then split c (tl (dropWhile (\<lambda>x. x \<noteq> c) s)) else [])"
  by (induction s) (auto split: list.splits)

lemma split_not_Nil: "split c s \<noteq> []"
  by (subst split_unfold) simp

lemma hd_split: "hd (split c s) = takeWhile (\<lambda>x. x \<noteq> c) s"
  by (subst split_unfold) simp

text \<open>Two pieces: the separator occurs, and not again after its first occurrence.\<close>

lemma split_two:
  "length (split c s) = 2 \<longleftrightarrow>
     c \<in> set s \<and> c \<notin> set (tl (dropWhile (\<lambda>x. x \<noteq> c) s))"
proof (cases "c \<in> set s")
  case False
  then show ?thesis by (subst split_unfold) simp
next
  case True
  let ?r = "tl (dropWhile (\<lambda>x. x \<noteq> c) s)"
  have s: "split c s = takeWhile (\<lambda>x. x \<noteq> c) s # split c ?r"
    using True by (subst split_unfold) simp
  show ?thesis
  proof (cases "c \<in> set ?r")
    case False
    then have "split c ?r = [takeWhile (\<lambda>x. x \<noteq> c) ?r]"
      by (subst split_unfold) simp
    with s True False show ?thesis by simp
  next
    case r: True
    then have "split c ?r = takeWhile (\<lambda>x. x \<noteq> c) ?r
        # split c (tl (dropWhile (\<lambda>x. x \<noteq> c) ?r))"
      by (subst split_unfold) simp
    with s True r show ?thesis
      using split_not_Nil [of c "tl (dropWhile (\<lambda>x. x \<noteq> c) ?r)"]
      by (cases "split c (tl (dropWhile (\<lambda>x. x \<noteq> c) ?r))") auto
  qed
qed

lemma split_second:
  assumes "length (split c s) = 2"
  shows "split c s ! 1 = tl (dropWhile (\<lambda>x. x \<noteq> c) s)"
proof -
  let ?r = "tl (dropWhile (\<lambda>x. x \<noteq> c) s)"
  from assms have m: "c \<in> set s" and n: "c \<notin> set ?r"
    by (simp_all add: split_two)
  have "split c s = takeWhile (\<lambda>x. x \<noteq> c) s # split c ?r"
    using m by (subst split_unfold) simp
  moreover have "split c ?r = [?r]"
    using n by (subst split_unfold) (auto simp add: takeWhile_eq_all_conv)
  ultimately show ?thesis by simp
qed

lemma key_append: "CHR ''='' \<notin> set k \<Longrightarrow> key (k @ CHR ''='' # v) = k"
  by (simp add: key_def takeWhile_append)

lemma key_self: "CHR ''='' \<notin> set k \<Longrightarrow> key k = k"
  by (auto simp add: key_def takeWhile_eq_all_conv)

lemma rest_append: "CHR ''='' \<notin> set k \<Longrightarrow> rest (k @ CHR ''='' # v) = v"
  by (simp add: rest_def dropWhile_append)

lemma startsWith_append: "startsWith (b @ c) b"
  by (induction b) simp_all


lemma includes_str_start: "startsWith s pat \<Longrightarrow> includes_str s pat"
  by (cases s; cases pat) simp_all

lemma includes_str_append: "includes_str (a @ b @ c) b"
proof (induction a)
  case Nil
  show ?case by (simp add: includes_str_start startsWith_append)
next
  case (Cons x a)
  then show ?case by simp
qed

lemma startsWith_self: "startsWith s s"
  using startsWith_append [of s "[]"] by simp

text \<open>Where the pattern ends the string and does not occur earlier, replacing it is
  replacing the ending.\<close>

lemma replace_at_end:
  "\<forall>i < length stem. \<not> startsWith (drop i (stem @ pat)) pat \<Longrightarrow>
     replace (stem @ pat) pat rep = stem @ rep"
proof (induction stem)
  case Nil
  show ?case by (cases pat) (simp_all add: startsWith_self del: startsWith.simps(3))
next
  case (Cons x stem)
  from Cons.prems have "\<not> startsWith (drop 0 ((x # stem) @ pat)) pat" by blast
  then have first: "\<not> startsWith (x # stem @ pat) pat" by simp
  have "\<forall>i < length stem. \<not> startsWith (drop i (stem @ pat)) pat"
  proof (intro allI impI)
    fix i assume "i < length stem"
    then have "Suc i < length (x # stem)" by simp
    with Cons.prems have "\<not> startsWith (drop (Suc i) ((x # stem) @ pat)) pat" by blast
    then show "\<not> startsWith (drop i (stem @ pat)) pat" by simp
  qed
  with Cons.IH first show ?case by simp
qed

section \<open>Facts about the path functions\<close>

lemma normalizeString_segments:
  "[] \<notin> set acc \<Longrightarrow> [] \<notin> set (normalizeString b acc ss)"
  by (induction b acc ss rule: normalizeString.induct) (auto split: list.splits)

lemma join_not_Nil: "segs \<noteq> [] \<Longrightarrow> [] \<notin> set segs \<Longrightarrow> join segs \<noteq> []"
  by (induction segs rule: join.induct) simp_all

lemma posix_resolve_not_Nil: "posix_resolve pwd cwd p \<noteq> []"
  using normalizeString_segments [of "[]"]
  by (auto simp: posix_resolve_def Let_def join_not_Nil)

lemma posix_not_Nil: "\<forall>p. resolve (posix pwd) cwd p \<noteq> []"
  by (simp add: posix_def posix_resolve_not_Nil)

section \<open>Facts about the argument loop\<close>

text \<open>The \<open>switch\<close>, case by case, in the notions of the specification.\<close>

lemma parseArg_cases:
  "parseArg P cwd this arg =
     (if malformedArg arg then Inl SyntaxError
      else if key arg = ''--src'' then
        Inr (this\<lparr>src := resolve P cwd (if endsWith (rest arg) ''.md'' then rest arg
                                         else rest arg @ ''.md'')\<rparr>)
      else if key arg = ''--out'' then
        Inr (this\<lparr>out := resolve P cwd (if endsWith (rest arg) ''.pdf'' then rest arg
                                         else rest arg @ ''.pdf'')\<rparr>)
      else if key arg = ''--outputHTML'' then Inr (this\<lparr>outputHTML := True\<rparr>)
      else if key arg = ''--showTitle'' then Inr (this\<lparr>showTitle := True\<rparr>)
      else if key arg = ''--browser'' then Inr (this\<lparr>browser := rest arg\<rparr>)
      else Inl SyntaxError)"
  unfolding parseArg_def malformedArg_def key_def rest_def Let_def hd_split
  using split_two [of "CHR ''=''" arg] split_second [of "CHR ''=''" arg]
  by auto

lemma parseArg_fails_iff:
  "(parseArg P cwd this arg = Inl SyntaxError) = malformedArg arg"
  by (auto simp: parseArg_cases malformedArg_def)

lemma parseArg_error: "parseArg P cwd this arg = Inl e \<Longrightarrow> e = SyntaxError"
  unfolding parseArg_def Let_def by (auto split: if_splits)

lemma parseArg_succeeds:
  "\<not> malformedArg arg \<Longrightarrow> \<exists>s'. parseArg P cwd this arg = Inr s'"
  using parseArg_fails_iff [of P cwd this arg] parseArg_error [of P cwd this arg]
  by (cases "parseArg P cwd this arg") auto

lemma parseArg_flag:
  "key arg = ''--outputHTML'' \<Longrightarrow> parseArg P cwd this arg = Inr (this\<lparr>outputHTML := True\<rparr>)"
  "key arg = ''--showTitle'' \<Longrightarrow> parseArg P cwd this arg = Inr (this\<lparr>showTitle := True\<rparr>)"
  by (simp_all add: parseArg_def Let_def hd_split key_def)

lemma forEach_append:
  "forEach f (xs @ ys) s =
     (case forEach f xs s of Inl e \<Rightarrow> Inl e | Inr s' \<Rightarrow> forEach f ys s')"
  by (induction xs arbitrary: s) (auto split: sum.splits)

lemma forEach_parse_fails:
  "(\<exists>a \<in> set args. malformedArg a) \<Longrightarrow> forEach (parseArg P cwd) args s = Inl SyntaxError"
  by (induction args arbitrary: s) (auto simp: parseArg_cases)

lemma forEach_parse_succeeds:
  "\<not> (\<exists>a \<in> set args. malformedArg a) \<Longrightarrow> \<exists>s'. forEach (parseArg P cwd) args s = Inr s'"
proof (induction args arbitrary: s)
  case Nil
  then show ?case by simp
next
  case (Cons a args)
  then obtain t where "parseArg P cwd s a = Inr t"
    using parseArg_succeeds [of a P cwd s] by auto
  with Cons show ?case by simp
qed

lemma forEach_src_set:
  assumes "forEach (parseArg P cwd) args s = Inr s'" "\<forall>p. resolve P cwd p \<noteq> []"
  shows "src s' = [] \<longleftrightarrow> src s = [] \<and> \<not> (\<exists>a \<in> set args. key a = ''--src'')"
  using assms
proof (induction args arbitrary: s)
  case Nil
  then show ?case by simp
next
  case (Cons a args)
  then show ?case
    by (auto simp: parseArg_cases split: if_splits)
qed

text \<open>Arguments with another key leave a field as it is.\<close>

lemma forEach_src_kept:
  "forEach (parseArg P cwd) args s = Inr s' \<Longrightarrow> \<forall>a \<in> set args. key a \<noteq> ''--src'' \<Longrightarrow>
     src s' = src s"
  by (induction args arbitrary: s) (auto simp: parseArg_cases split: if_splits)

lemma forEach_out_kept:
  "forEach (parseArg P cwd) args s = Inr s' \<Longrightarrow> \<forall>a \<in> set args. key a \<noteq> ''--out'' \<Longrightarrow>
     out s' = out s"
  by (induction args arbitrary: s) (auto simp: parseArg_cases split: if_splits)

lemma forEach_browser_kept:
  "forEach (parseArg P cwd) args s = Inr s' \<Longrightarrow> \<forall>a \<in> set args. key a \<noteq> ''--browser'' \<Longrightarrow>
     browser s' = browser s"
  by (induction args arbitrary: s) (auto simp: parseArg_cases split: if_splits)

text \<open>A loop that succeeds on \<open>pre @ x # post\<close> went through \<open>x\<close>.\<close>

lemma forEach_through:
  assumes "forEach (parseArg P cwd) (pre @ x # post) s = Inr s'"
  obtains s1 s2 where "parseArg P cwd s1 x = Inr s2"
    and "forEach (parseArg P cwd) post s2 = Inr s'"
  using assms by (auto simp: forEach_append split: sum.splits)

lemma malformed_no_src:
  "\<not> (\<exists>a \<in> set args. malformedArg a) \<Longrightarrow>
     (\<exists>a \<in> set args. key a = ''--src'' \<and> rest a \<noteq> []) = (\<exists>a \<in> set args. key a = ''--src'')"
  by (auto simp: malformedArg_def)

section \<open>Facts about the constructor\<close>

lemma Options_fails_iff:
  assumes "\<forall>p. resolve P cwd p \<noteq> []"
  shows "(Options P args cwd = Inl SyntaxError) = malformed args"
proof (cases "\<exists>a \<in> set args. malformedArg a")
  case True
  then show ?thesis
    by (simp add: Options_def forEach_parse_fails malformed_def)
next
  case False
  then obtain s' where s': "forEach (parseArg P cwd) args defaults = Inr s'"
    using forEach_parse_succeeds by blast
  have "src s' = [] \<longleftrightarrow> \<not> (\<exists>a \<in> set args. key a = ''--src'')"
    using forEach_src_set [OF s' assms] by (simp add: defaults_def)
  then show ?thesis
    using False s' malformed_no_src [OF False]
    by (simp add: Options_def malformed_def)
qed

lemma Options_error:
  assumes "Options P args cwd = Inl e"
  shows "e = SyntaxError"
proof (cases "forEach (parseArg P cwd) args defaults")
  case (Inl e')
  have "\<exists>a \<in> set args. malformedArg a"
  proof (rule ccontr)
    assume "\<not> ?thesis"
    then show False using forEach_parse_succeeds [of args P cwd defaults] Inl by auto
  qed
  then have "forEach (parseArg P cwd) args defaults = Inl SyntaxError"
    by (rule forEach_parse_fails)
  with assms show ?thesis by (simp add: Options_def)
next
  case (Inr s')
  with assms show ?thesis by (simp add: Options_def split: if_splits)
qed

lemma Options_succeeds_iff:
  assumes "\<forall>p. resolve P cwd p \<noteq> []"
  shows "(\<exists>c. Options P args cwd = Inr c) = (\<not> malformed args)"
proof (cases "Options P args cwd")
  case (Inl e)
  then show ?thesis
    using Options_error [OF Inl] Options_fails_iff [OF assms, of args] by simp
next
  case (Inr c)
  then show ?thesis
    using Options_fails_iff [OF assms, of args] by simp
qed

text \<open>The object that leaves the constructor, from the one that leaves the loop.\<close>

lemma Options_from_loop:
  assumes "Options P args cwd = Inr c"
  shows "\<exists>s'. forEach (parseArg P cwd) args defaults = Inr s'
           \<and> src c = src s' \<and> browser c = browser s'
           \<and> (out s' \<noteq> [] \<longrightarrow> out c = out s')
           \<and> (out s' = [] \<longrightarrow> out c = replace (src s') ''.md'' ''.pdf'')"
  using assms by (auto simp: Options_def split: sum.splits if_splits)

lemma Options_src_last:
  assumes "Options P (pre @ (''--src='' @ v) # post) cwd = Inr c"
    and "\<forall>a \<in> set post. key a \<noteq> ''--src''"
  shows "src c = resolve P cwd (if endsWith v ''.md'' then v else v @ ''.md'')"
proof -
  have k: "key (''--src='' @ v) = ''--src''" and r: "rest (''--src='' @ v) = v"
    using key_append [of "''--src''" v] rest_append [of "''--src''" v] by simp_all
  from Options_from_loop [OF assms(1)] obtain s' where
    loop: "forEach (parseArg P cwd) (pre @ (''--src='' @ v) # post) defaults = Inr s'"
    and c: "src c = src s'"
    by blast
  from loop obtain s1 s2 where
    step: "parseArg P cwd s1 (''--src='' @ v) = Inr s2"
    and tail: "forEach (parseArg P cwd) post s2 = Inr s'"
    by (rule forEach_through)
  from step have "src s2 = resolve P cwd (if endsWith v ''.md'' then v else v @ ''.md'')"
    unfolding parseArg_cases k r by (auto split: if_splits)
  with forEach_src_kept [OF tail assms(2)] c show ?thesis by simp
qed

lemma Options_out_last:
  assumes "Options P (pre @ (''--out='' @ v) # post) cwd = Inr c"
    and "\<forall>a \<in> set post. key a \<noteq> ''--out''"
    and "resolve P cwd (if endsWith v ''.pdf'' then v else v @ ''.pdf'') \<noteq> []"
  shows "out c = resolve P cwd (if endsWith v ''.pdf'' then v else v @ ''.pdf'')"
proof -
  have k: "key (''--out='' @ v) = ''--out''" and r: "rest (''--out='' @ v) = v"
    using key_append [of "''--out''" v] rest_append [of "''--out''" v] by simp_all
  from Options_from_loop [OF assms(1)] obtain s' where
    loop: "forEach (parseArg P cwd) (pre @ (''--out='' @ v) # post) defaults = Inr s'"
    and c: "out s' \<noteq> [] \<longrightarrow> out c = out s'"
    by blast
  from loop obtain s1 s2 where
    step: "parseArg P cwd s1 (''--out='' @ v) = Inr s2"
    and tail: "forEach (parseArg P cwd) post s2 = Inr s'"
    by (rule forEach_through)
  from step have "out s2 = resolve P cwd (if endsWith v ''.pdf'' then v else v @ ''.pdf'')"
    unfolding parseArg_cases k r by (auto split: if_splits)
  with forEach_out_kept [OF tail assms(2)] c assms(3) show ?thesis by simp
qed

lemma Options_browser_last:
  assumes "Options P (pre @ (''--browser='' @ v) # post) cwd = Inr c"
    and "\<forall>a \<in> set post. key a \<noteq> ''--browser''"
  shows "browser c = v"
proof -
  have k: "key (''--browser='' @ v) = ''--browser''" and r: "rest (''--browser='' @ v) = v"
    using key_append [of "''--browser''" v] rest_append [of "''--browser''" v] by simp_all
  from Options_from_loop [OF assms(1)] obtain s' where
    loop: "forEach (parseArg P cwd) (pre @ (''--browser='' @ v) # post) defaults = Inr s'"
    and c: "browser c = browser s'"
    by blast
  from loop obtain s1 s2 where
    step: "parseArg P cwd s1 (''--browser='' @ v) = Inr s2"
    and tail: "forEach (parseArg P cwd) post s2 = Inr s'"
    by (rule forEach_through)
  from step have "browser s2 = v"
    unfolding parseArg_cases k r by (auto split: if_splits)
  with forEach_browser_kept [OF tail assms(2)] c show ?thesis by simp
qed

text \<open>A flag that is set stays set.\<close>

lemma forEach_outputHTML_kept:
  "forEach (parseArg P cwd) args s = Inr s' \<Longrightarrow> outputHTML s \<Longrightarrow> outputHTML s'"
  by (induction args arbitrary: s) (auto simp: parseArg_cases split: if_splits)

lemma forEach_showTitle_kept:
  "forEach (parseArg P cwd) args s = Inr s' \<Longrightarrow> showTitle s \<Longrightarrow> showTitle s'"
  by (induction args arbitrary: s) (auto simp: parseArg_cases split: if_splits)

lemma Options_flags_from_loop:
  assumes "Options P args cwd = Inr c"
  shows "\<exists>s'. forEach (parseArg P cwd) args defaults = Inr s'
           \<and> outputHTML c = outputHTML s' \<and> showTitle c = showTitle s'"
  using assms by (auto simp: Options_def split: sum.splits if_splits)

lemma Options_outputHTML_set:
  assumes "Options P (pre @ arg # post) cwd = Inr c" "key arg = ''--outputHTML''"
  shows "outputHTML c"
proof -
  from Options_flags_from_loop [OF assms(1)] obtain s' where
    loop: "forEach (parseArg P cwd) (pre @ arg # post) defaults = Inr s'"
    and c: "outputHTML c = outputHTML s'"
    by blast
  from loop obtain s1 s2 where
    step: "parseArg P cwd s1 arg = Inr s2"
    and tail: "forEach (parseArg P cwd) post s2 = Inr s'"
    by (rule forEach_through)
  from step have "outputHTML s2"
    by (auto simp: parseArg_flag(1) [OF assms(2)])
  with forEach_outputHTML_kept [OF tail] c show ?thesis by simp
qed

lemma Options_showTitle_set:
  assumes "Options P (pre @ arg # post) cwd = Inr c" "key arg = ''--showTitle''"
  shows "showTitle c"
proof -
  from Options_flags_from_loop [OF assms(1)] obtain s' where
    loop: "forEach (parseArg P cwd) (pre @ arg # post) defaults = Inr s'"
    and c: "showTitle c = showTitle s'"
    by blast
  from loop obtain s1 s2 where
    step: "parseArg P cwd s1 arg = Inr s2"
    and tail: "forEach (parseArg P cwd) post s2 = Inr s'"
    by (rule forEach_through)
  from step have "showTitle s2"
    by (auto simp: parseArg_flag(2) [OF assms(2)])
  with forEach_showTitle_kept [OF tail] c show ?thesis by simp
qed

section \<open>Facts about runs\<close>

lemma fst_andThen:
  "fst (andThen m f) = fst m @ (case snd m of Inl e \<Rightarrow> [] | Inr x \<Rightarrow> fst (f x))"
  by (auto simp: andThen_def split: prod.splits sum.splits)

lemma snd_andThen:
  "snd (andThen m f) = (case snd m of Inl e \<Rightarrow> Inl e | Inr x \<Rightarrow> snd (f x))"
  by (auto simp: andThen_def split: prod.splits sum.splits)

lemma fst_await: "fst (await e r) = [e]"
  by (simp add: await_def)

lemma snd_await: "snd (await e r) = r"
  by (simp add: await_def)

lemmas run_simps = fst_andThen snd_andThen fst_await snd_await

lemma renderMarkdown_no_Exit: "filter isExit (fst (renderMarkdown P W options)) = []"
  unfolding renderMarkdown_def
  by (simp add: run_simps split: sum.splits)

lemma report_no_Exit: "filter isExit (report e) = []"
  by (cases e) simp_all

lemma precedes_nth:
  "precedes p q es \<Longrightarrow> i < length es \<Longrightarrow> q (es ! i) \<Longrightarrow> \<exists>j<i. p (es ! j)"
proof (induction es arbitrary: i)
  case Nil
  then show ?case by simp
next
  case (Cons e es)
  from Cons.prems have nq: "\<not> q e" by simp
  with Cons.prems obtain k where i: "i = Suc k" by (cases i) auto
  show ?case
  proof (cases "p e")
    case True
    then have "0 < i \<and> p ((e # es) ! 0)" using i by simp
    then show ?thesis by blast
  next
    case False
    with Cons.prems i have "precedes p q es" "k < length es" "q (es ! k)" by simp_all
    then obtain j where "j < k" "p (es ! j)" using Cons.IH by blast
    then have "Suc j < i \<and> p ((e # es) ! Suc j)" using i by simp
    then show ?thesis by blast
  qed
qed

text \<open>With \<open>outputHTML\<close>, no call to the browser comes before a returned write of the
  composed document at the path \<open>src.replace('.md', '.html')\<close>.\<close>

lemma html_precedes:
  "outputHTML options \<Longrightarrow>
   precedes (\<lambda>e. \<exists>md html css. readFile_utf8 W (src options) = Inr md
                   \<and> marked W md = Inr html
                   \<and> readFile_buffer W (resolve P (meta_dir W) ''../css/APS.css'') = Inr css
                   \<and> e = WriteFile (replace (src options) ''.md'' ''.html'')
                         (web (title P options) css html)
                   \<and> writeFile W (replace (src options) ''.md'' ''.html'')
                         (web (title P options) css html) = Inr ())
     isEmission (fst (renderMarkdown P W options))"
  unfolding renderMarkdown_def
  by (simp add: run_simps split: sum.splits)

lemma html_written_before_browser:
  assumes "outputHTML options" "i < length (fst (renderMarkdown P W options))"
    and "isEmission (fst (renderMarkdown P W options) ! i)"
  shows "\<exists>j < i. \<exists>md html css. readFile_utf8 W (src options) = Inr md
           \<and> marked W md = Inr html
           \<and> readFile_buffer W (resolve P (meta_dir W) ''../css/APS.css'') = Inr css
           \<and> fst (renderMarkdown P W options) ! j
               = WriteFile (replace (src options) ''.md'' ''.html'')
                   (web (title P options) css html)
           \<and> writeFile W (replace (src options) ''.md'' ''.html'')
                   (web (title P options) css html) = Inr ()"
  using precedes_nth [OF html_precedes [OF assms(1), of W P] assms(2,3)] by simp

text \<open>A write that throws ends the run before any call to the browser.\<close>

lemma html_write_failure_aborts:
  assumes "WriteFile p d \<in> set (fst (renderMarkdown P W options))" "writeFile W p d = Inl e"
  shows "snd (renderMarkdown P W options) = Inl e
    \<and> filter isEmission (fst (renderMarkdown P W options)) = []"
  using assms unfolding renderMarkdown_def
  by (auto simp add: run_simps split: sum.splits if_splits)

text \<open>Without \<open>outputHTML\<close> no file is written.\<close>

lemma no_html_without_flag:
  "\<not> outputHTML options \<Longrightarrow> filter isWriteFile (fst (renderMarkdown P W options)) = []"
  unfolding renderMarkdown_def
  by (simp add: run_simps split: sum.splits)

section \<open>The output path\<close>

text \<open>
  C1. When \<open>--out\<close> is omitted, the output path is to be the source path with the \<open>.md\<close>
  at its end replaced by \<open>.pdf\<close>. The constructor replaces the first \<open>.md\<close> of the source
  path instead: for the file \<open>notes.md.md\<close> in \<open>/docs\<close> the source path is
  \<open>/docs/notes.md.md\<close> and the output path is \<open>/docs/notes.pdf.md\<close>, not
  \<open>/docs/notes.md.pdf\<close>.
\<close>

theorem out_replaces_first_md:
  "Options (posix ''/'') [''--src=notes.md.md''] ''/docs''
     = Inr (defaults\<lparr>src := ''/docs/notes.md.md'', out := ''/docs/notes.pdf.md''\<rparr>)"
  by code_simp

section \<open>The browser process\<close>

text \<open>
  C2, as claimed: the browser is closed on every path after its launch. It is not: when
  the page cannot be created, the browser has been launched, \<open>renderMarkdown\<close> throws, and
  \<open>close\<close> is never called.
\<close>

theorem browser_left_open:
  "launch (calm\<lparr>newPage := Inl (Error ''Error'' ''no page'')\<rparr>) (browser paper) = Inr ()
   \<and> fst (renderMarkdown (posix ''/'') (calm\<lparr>newPage := Inl (Error ''Error'' ''no page'')\<rparr>) paper)
       = [ReadFile ''/docs/paper.md'', Marked ''# Title'', ReadFile ''/opt/mdpdf/css/APS.css'',
          Launch (browser paper), NewPage]
   \<and> snd (renderMarkdown (posix ''/'') (calm\<lparr>newPage := Inl (Error ''Error'' ''no page'')\<rparr>) paper)
       = Inl (Error ''Error'' ''no page'')
   \<and> count_list
        (fst (renderMarkdown (posix ''/'') (calm\<lparr>newPage := Inl (Error ''Error'' ''no page'')\<rparr>) paper))
        Close = 0"
  by (simp add: renderMarkdown_def run_simps calm_def always_def paper_def defaults_def
        posix_def posix_resolve_def prepend_def)

text \<open>
  C2, as amended: \<open>close\<close> is called at most once in a run; a run that returns has called
  it exactly once, as its last call, right after \<open>page.pdf\<close>; \<open>close\<close> is called exactly in
  the runs whose \<open>page.pdf\<close> returned; and a run in which the creation of the page, the
  loading of the content or \<open>page.pdf\<close> throws has launched the browser, throws the same
  exception and does not call \<open>close\<close>.
\<close>

theorem close_only_after_pdf:
  "count_list (fst (renderMarkdown P W options)) Close \<le> 1
   \<and> (snd (renderMarkdown P W options) = Inr () \<longrightarrow>
        count_list (fst (renderMarkdown P W options)) Close = 1
        \<and> drop (length (fst (renderMarkdown P W options)) - 2) (fst (renderMarkdown P W options))
            = [Pdf (pdfArgument options), Close])
   \<and> (Close \<in> set (fst (renderMarkdown P W options)) \<longleftrightarrow>
        Pdf (pdfArgument options) \<in> set (fst (renderMarkdown P W options))
        \<and> pdf W (pdfArgument options) = Inr ())
   \<and> (NewPage \<in> set (fst (renderMarkdown P W options)) \<and> newPage W = Inl e \<longrightarrow>
        Launch (browser options) \<in> set (fst (renderMarkdown P W options))
        \<and> launch W (browser options) = Inr ()
        \<and> snd (renderMarkdown P W options) = Inl e
        \<and> Close \<notin> set (fst (renderMarkdown P W options)))
   \<and> (SetContent d \<in> set (fst (renderMarkdown P W options)) \<and> setContent W d = Inl e \<longrightarrow>
        Launch (browser options) \<in> set (fst (renderMarkdown P W options))
        \<and> launch W (browser options) = Inr ()
        \<and> snd (renderMarkdown P W options) = Inl e
        \<and> Close \<notin> set (fst (renderMarkdown P W options)))
   \<and> (Pdf a \<in> set (fst (renderMarkdown P W options)) \<and> pdf W a = Inl e \<longrightarrow>
        Launch (browser options) \<in> set (fst (renderMarkdown P W options))
        \<and> launch W (browser options) = Inr ()
        \<and> snd (renderMarkdown P W options) = Inl e
        \<and> Close \<notin> set (fst (renderMarkdown P W options)))"
  unfolding renderMarkdown_def
  by (auto simp add: run_simps split: sum.splits)

theorem close_only_after_pdf_witness:
  "snd (renderMarkdown (posix ''/'') calm paper) = Inr ()
   \<and> count_list (fst (renderMarkdown (posix ''/'') calm paper)) Close = 1
   \<and> drop (length (fst (renderMarkdown (posix ''/'') calm paper)) - 2)
        (fst (renderMarkdown (posix ''/'') calm paper))
       = [Pdf (pdfArgument paper), Close]
   \<and> NewPage \<in> set (fst (renderMarkdown (posix ''/'') (calm\<lparr>newPage := Inl Thrown\<rparr>) paper))
   \<and> newPage (calm\<lparr>newPage := Inl Thrown\<rparr>) = Inl Thrown
   \<and> launch (calm\<lparr>newPage := Inl Thrown\<rparr>) (browser paper) = Inr ()
   \<and> Close \<notin> set (fst (renderMarkdown (posix ''/'') (calm\<lparr>newPage := Inl Thrown\<rparr>) paper))
   \<and> Pdf (pdfArgument paper)
       \<in> set (fst (renderMarkdown (posix ''/'') (calm\<lparr>pdf := always (Inl Thrown)\<rparr>) paper))
   \<and> pdf (calm\<lparr>pdf := always (Inl Thrown)\<rparr>) (pdfArgument paper) = Inl Thrown
   \<and> snd (renderMarkdown (posix ''/'') (calm\<lparr>pdf := always (Inl Thrown)\<rparr>) paper) = Inl Thrown
   \<and> Close \<notin> set (fst (renderMarkdown (posix ''/'') (calm\<lparr>pdf := always (Inl Thrown)\<rparr>) paper))"
proof -
  have a: "snd (renderMarkdown (posix ''/'') calm paper) = Inr ()"
    by (simp add: renderMarkdown_def run_simps calm_def always_def)
  have b: "NewPage \<in> set (fst (renderMarkdown (posix ''/'') (calm\<lparr>newPage := Inl Thrown\<rparr>) paper))"
    "newPage (calm\<lparr>newPage := Inl Thrown\<rparr>) = Inl Thrown"
    by (simp_all add: renderMarkdown_def run_simps calm_def always_def)
  have c: "Pdf (pdfArgument paper)
       \<in> set (fst (renderMarkdown (posix ''/'') (calm\<lparr>pdf := always (Inl Thrown)\<rparr>) paper))"
    "pdf (calm\<lparr>pdf := always (Inl Thrown)\<rparr>) (pdfArgument paper) = Inl Thrown"
    by (simp_all add: renderMarkdown_def run_simps calm_def always_def)
  have s: "count_list (fst (renderMarkdown (posix ''/'') calm paper)) Close = 1
      \<and> drop (length (fst (renderMarkdown (posix ''/'') calm paper)) - 2)
        (fst (renderMarkdown (posix ''/'') calm paper))
       = [Pdf (pdfArgument paper), Close]"
    using a close_only_after_pdf [where P = "posix ''/''" and W = calm and options = paper]
    by blast
  have n: "launch (calm\<lparr>newPage := Inl Thrown\<rparr>) (browser paper) = Inr ()
      \<and> Close \<notin> set (fst (renderMarkdown (posix ''/'') (calm\<lparr>newPage := Inl Thrown\<rparr>) paper))"
    using b close_only_after_pdf [where P = "posix ''/''"
        and W = "calm\<lparr>newPage := Inl Thrown\<rparr>" and options = paper and e = Thrown]
    by blast
  have p: "snd (renderMarkdown (posix ''/'') (calm\<lparr>pdf := always (Inl Thrown)\<rparr>) paper)
        = Inl Thrown
      \<and> Close \<notin> set (fst (renderMarkdown (posix ''/'') (calm\<lparr>pdf := always (Inl Thrown)\<rparr>) paper))"
    using c close_only_after_pdf [where P = "posix ''/''"
        and W = "calm\<lparr>pdf := always (Inl Thrown)\<rparr>" and options = paper and e = Thrown
        and a = "pdfArgument paper"]
    by blast
  from a b c s n p show ?thesis by blast
qed

section \<open>Flags with a value\<close>

text \<open>
  C3, as claimed: a flag key with an appended value is a parameter error. It is not:
  \<open>--outputHTML=true\<close> is accepted and sets the flag.
\<close>

theorem flag_with_value_accepted:
  "Options (posix ''/'') [''--src=paper'', ''--outputHTML=true''] ''/docs''
     = Inr (defaults\<lparr>src := ''/docs/paper.md'', out := ''/docs/paper.pdf'', outputHTML := True\<rparr>)"
  by code_simp

text \<open>
  C3, as amended: what follows the \<open>=\<close> of a flag key is ignored. An argument
  \<open>--outputHTML=v\<close> or \<open>--showTitle=v\<close> is accepted and sets its flag, whatever \<open>v\<close> is; an
  argument list with it resolves as the list with the bare flag in its place does; and in
  the Configuration of such a list the flag is true.
\<close>

theorem flag_value_ignored:
  "parseArg P cwd this (''--outputHTML='' @ v) = Inr (this\<lparr>outputHTML := True\<rparr>)
   \<and> parseArg P cwd this (''--showTitle='' @ v) = Inr (this\<lparr>showTitle := True\<rparr>)
   \<and> Options P (pre @ (''--outputHTML='' @ v) # post) cwd
     = Options P (pre @ ''--outputHTML'' # post) cwd
   \<and> Options P (pre @ (''--showTitle='' @ v) # post) cwd
     = Options P (pre @ ''--showTitle'' # post) cwd
   \<and> (Options P (pre @ (''--outputHTML='' @ v) # post) cwd = Inr c \<longrightarrow> outputHTML c)
   \<and> (Options P (pre @ (''--showTitle='' @ v) # post) cwd = Inr c \<longrightarrow> showTitle c)"
proof -
  have a: "key (''--outputHTML='' @ v) = ''--outputHTML''"
    using key_append [of "''--outputHTML''" v] by simp
  have b: "key ''--outputHTML'' = ''--outputHTML''"
    by (rule key_self) simp
  have c: "key (''--showTitle='' @ v) = ''--showTitle''"
    using key_append [of "''--showTitle''" v] by simp
  have d: "key ''--showTitle'' = ''--showTitle''"
    by (rule key_self) simp
  have eq: "Options P (pre @ (''--outputHTML='' @ v) # post) cwd
     = Options P (pre @ ''--outputHTML'' # post) cwd
   \<and> Options P (pre @ (''--showTitle='' @ v) # post) cwd
     = Options P (pre @ ''--showTitle'' # post) cwd"
    unfolding Options_def forEach_append
    by (simp add: parseArg_flag(1) [OF a] parseArg_flag(1) [OF b]
          parseArg_flag(2) [OF c] parseArg_flag(2) [OF d] del: append.simps split: sum.splits)
  show ?thesis
    using eq parseArg_flag(1) [OF a, of P cwd this] parseArg_flag(2) [OF c, of P cwd this]
      Options_outputHTML_set [OF _ a, of P pre post cwd c]
      Options_showTitle_set [OF _ c, of P pre post cwd c]
    by blast
qed

theorem flag_value_ignored_witness:
  "Options (posix ''/'') [''--src=paper'', ''--showTitle=no'', ''--outputHTML=1=2''] ''/docs''
     = Inr (defaults\<lparr>src := ''/docs/paper.md'', out := ''/docs/paper.pdf'',
              outputHTML := True, showTitle := True\<rparr>)
   \<and> parseArg (posix ''/'') ''/docs'' defaults ''--outputHTML=true''
     = Inr (defaults\<lparr>outputHTML := True\<rparr>)"
proof -
  have "Options (posix ''/'') [''--src=paper'', ''--showTitle'', ''--outputHTML''] ''/docs''
     = Inr (defaults\<lparr>src := ''/docs/paper.md'', out := ''/docs/paper.pdf'',
              outputHTML := True, showTitle := True\<rparr>)"
    by code_simp
  then show ?thesis
    using flag_value_ignored [where P = "posix ''/''" and pre = "[''--src=paper'']"
        and v = "''no''" and post = "[''--outputHTML=1=2'']" and cwd = "''/docs''"]
      flag_value_ignored [where P = "posix ''/''" and pre = "[''--src=paper'', ''--showTitle'']"
        and v = "''1=2''" and post = "[]" and cwd = "''/docs''"]
      flag_value_ignored [where P = "posix ''/''" and v = "''true''" and cwd = "''/docs''"
        and this = defaults]
    by simp
qed

section \<open>The header template\<close>




section \<open>Parameter errors\<close>

text \<open>
  C5. Provided \<open>path.resolve\<close> never returns the empty string (it returns an absolute
  path), the constructor throws exactly when the argument list is malformed, what it
  throws is a \<open>SyntaxError\<close>, and \<open>main\<close> then writes the usage message and ends the
  process without any step of rendering.
\<close>

theorem parameter_error_iff_malformed:
  assumes "\<forall>p. resolve P cwd p \<noteq> []"
  shows "(Options P args cwd = Inl SyntaxError \<longleftrightarrow> malformed args)
    \<and> ((\<exists>c. Options P args cwd = Inr c) \<longleftrightarrow> \<not> malformed args)
    \<and> (malformed args \<longrightarrow> main P W args cwd = [LogError msgSyntax, Exit 0])"
proof -
  have "main P W args cwd = [LogError msgSyntax, Exit 0]" if "malformed args"
  proof -
    from that have "Options P args cwd = Inl SyntaxError"
      by (simp add: Options_fails_iff [OF assms])
    then show ?thesis by (simp add: main_def)
  qed
  then show ?thesis
    using Options_fails_iff [OF assms, of args] Options_succeeds_iff [OF assms, of args]
    by blast
qed

theorem parameter_error_iff_malformed_witness:
  "malformed [''--src=x'', ''--unknown'']
   \<and> Options (posix ''/'') [''--src=x'', ''--unknown''] ''/docs'' = Inl SyntaxError
   \<and> main (posix ''/'') calm [''--src=x'', ''--unknown''] ''/docs''
       = [LogError msgSyntax, Exit 0]
   \<and> malformed [''--src'']
   \<and> Options (posix ''/'') [''--src''] ''/docs'' = Inl SyntaxError
   \<and> \<not> malformed [''--src=paper'', ''--outputHTML'']
   \<and> (\<exists>c. Options (posix ''/'') [''--src=paper'', ''--outputHTML''] ''/docs'' = Inr c)"
proof -
  have m: "malformed [''--src=x'', ''--unknown'']" "malformed [''--src'']"
    "\<not> malformed [''--src=paper'', ''--outputHTML'']"
    by (simp_all add: malformed_def malformedArg_def key_def rest_def)
  show ?thesis
    using m
      parameter_error_iff_malformed [where P = "posix ''/''" and cwd = "''/docs''"
        and args = "[''--src=x'', ''--unknown'']" and W = calm, OF posix_not_Nil]
      parameter_error_iff_malformed [where P = "posix ''/''" and cwd = "''/docs''"
        and args = "[''--src'']" and W = calm, OF posix_not_Nil]
      parameter_error_iff_malformed [where P = "posix ''/''" and cwd = "''/docs''"
        and args = "[''--src=paper'', ''--outputHTML'']" and W = calm, OF posix_not_Nil]
    by simp
qed

section \<open>Extensions\<close>

text \<open>
  C6. In a Configuration that the constructor returns, the source path is the value of
  the last \<open>--src\<close> argument, with \<open>.md\<close> appended unless it ends in \<open>.md\<close>, resolved
  against the working directory; the output path is obtained in the same way, with
  \<open>.pdf\<close>, from the value of the last \<open>--out\<close> argument (whose resolved path is not the
  empty string).
\<close>

theorem extension_appended:
  assumes "Options P args cwd = Inr c"
  shows "(args = pre @ (''--src='' @ v) # post \<and> (\<forall>a \<in> set post. key a \<noteq> ''--src'') \<longrightarrow>
            src c = resolve P cwd (if endsWith v ''.md'' then v else v @ ''.md''))
    \<and> (args = pre' @ (''--out='' @ w) # post' \<and> (\<forall>a \<in> set post'. key a \<noteq> ''--out'')
          \<and> resolve P cwd (if endsWith w ''.pdf'' then w else w @ ''.pdf'') \<noteq> [] \<longrightarrow>
            out c = resolve P cwd (if endsWith w ''.pdf'' then w else w @ ''.pdf''))"
  using assms Options_src_last [of P pre v post cwd c] Options_out_last [of P pre' w post' cwd c]
  by blast

theorem extension_appended_witness:
  "Options (posix ''/'') [''--src=paper'', ''--out=out/final.pdf'', ''--outputHTML''] ''/docs''
     = Inr (defaults\<lparr>src := ''/docs/paper.md'', out := ''/docs/out/final.pdf'',
              outputHTML := True\<rparr>)
   \<and> \<not> endsWith ''paper'' ''.md''
   \<and> resolve (posix ''/'') ''/docs'' (''paper'' @ ''.md'') = ''/docs/paper.md''
   \<and> endsWith ''out/final.pdf'' ''.pdf''
   \<and> resolve (posix ''/'') ''/docs'' ''out/final.pdf'' = ''/docs/out/final.pdf''"
proof -
  have o: "Options (posix ''/'') [''--src=paper'', ''--out=out/final.pdf'', ''--outputHTML'']
      ''/docs''
     = Inr (defaults\<lparr>src := ''/docs/paper.md'', out := ''/docs/out/final.pdf'',
              outputHTML := True\<rparr>)"
    by code_simp
  have e: "\<not> endsWith ''paper'' ''.md''" "endsWith ''out/final.pdf'' ''.pdf''"
    by (simp_all add: endsWith_def)
  have k: "\<forall>a \<in> set [''--out=out/final.pdf'', ''--outputHTML'']. key a \<noteq> ''--src''"
    "\<forall>a \<in> set [''--outputHTML'']. key a \<noteq> ''--out''"
    by (simp_all add: key_def)
  show ?thesis
    using o e k extension_appended [OF o, where pre = "[]" and v = "''paper''"
        and post = "[''--out=out/final.pdf'', ''--outputHTML'']" and pre' = "[''--src=paper'']"
        and w = "''out/final.pdf''" and post' = "[''--outputHTML'']"]
      posix_not_Nil [of "''/''" "''/docs''"]
    by (simp add: defaults_def)
qed

section \<open>The exit status\<close>

text \<open>
  C7. Every run of \<open>main\<close> ends the process once, with status 0, as its last event:
  whether the constructor throws, rendering throws anything at all, or rendering
  returns.
\<close>

theorem main_exit_status:
  "filter isExit (main P W args cwd) = [Exit 0] \<and> last (main P W args cwd) = Exit 0"
proof (cases "Options P args cwd")
  case (Inl e)
  then show ?thesis by (simp add: main_def report_no_Exit)
next
  case (Inr options)
  obtain es r where run: "renderMarkdown P W options = (es, r)"
    by (cases "renderMarkdown P W options")
  have "filter isExit es = []"
    using renderMarkdown_no_Exit [of P W options] run by simp
  then show ?thesis
    using Inr run by (cases r) (simp_all add: main_def andThen_def report_no_Exit)
qed

theorem main_exit_status_witness:
  "last (main (posix ''/'') calm [''--src=paper''] ''/docs'') = Exit 0
   \<and> last (main (posix ''/'') calm [''--src=x'', ''--unknown''] ''/docs'') = Exit 0
   \<and> last (main (posix ''/'') (calm\<lparr>launch := always (Inl (Error ''Error'' ''no browser''))\<rparr>)
        [''--src=paper''] ''/docs'') = Exit 0"
  using main_exit_status [of "posix ''/''" calm "[''--src=paper'']" "''/docs''"]
    main_exit_status [of "posix ''/''" calm "[''--src=x'', ''--unknown'']" "''/docs''"]
    main_exit_status [of "posix ''/''" "calm\<lparr>launch := always (Inl (Error ''Error'' ''no browser''))\<rparr>"
      "[''--src=paper'']" "''/docs''"]
  by simp

section \<open>The HTML file\<close>

text \<open>
  C8. With \<open>outputHTML\<close> the composed document is to be written, before any call to the
  browser, to the source path with its \<open>.md\<close> extension replaced by \<open>.html\<close>. The order
  holds (\<open>html_written_before_browser\<close>, \<open>html_write_failure_aborts\<close>,
  \<open>no_html_without_flag\<close>); the path does not. \<open>renderMarkdown\<close> replaces the first \<open>.md\<close>
  of the source path, as the constructor does for the output path: for
  \<open>mdpdf --src=notes.md.md --out=notes.pdf --outputHTML\<close> in \<open>/docs\<close> the document is
  written to \<open>/docs/notes.html.md\<close>, not to \<open>/docs/notes.md.html\<close>.
\<close>

theorem html_path_replaces_first_md:
  "Options (posix ''/'') [''--src=notes.md.md'', ''--out=notes.pdf'', ''--outputHTML''] ''/docs''
     = Inr (defaults\<lparr>src := ''/docs/notes.md.md'', out := ''/docs/notes.pdf'',
              outputHTML := True\<rparr>)
   \<and> fst (renderMarkdown (posix ''/'') calm
          (defaults\<lparr>src := ''/docs/notes.md.md'', out := ''/docs/notes.pdf'',
             outputHTML := True\<rparr>))
     = [ReadFile ''/docs/notes.md.md'', Marked ''# Title'', ReadFile ''/opt/mdpdf/css/APS.css'',
        WriteFile ''/docs/notes.html.md''
          (web ''notes.md'' ''h1 { color: red }'' ''<h1>Title</h1>''),
        Launch (browser defaults), NewPage,
        SetContent (web ''notes.md'' ''h1 { color: red }'' ''<h1>Title</h1>''),
        Pdf (pdfArgument (defaults\<lparr>src := ''/docs/notes.md.md'', out := ''/docs/notes.pdf'',
             outputHTML := True\<rparr>)),
        Close]"
proof -
  let ?o = "defaults\<lparr>src := ''/docs/notes.md.md'', out := ''/docs/notes.pdf'',
              outputHTML := True\<rparr>"
  have o: "Options (posix ''/'') [''--src=notes.md.md'', ''--out=notes.pdf'', ''--outputHTML'']
      ''/docs'' = Inr ?o"
    by code_simp
  have r: "replace (src ?o) ''.md'' ''.html'' = ''/docs/notes.html.md''"
    by code_simp
  have t: "title (posix ''/'') ?o = ''notes.md''"
    by code_simp
  have c: "resolve (posix ''/'') (meta_dir calm) ''../css/APS.css'' = ''/opt/mdpdf/css/APS.css''"
    by code_simp
  have b: "outputHTML ?o" "src ?o = ''/docs/notes.md.md''" "browser ?o = browser defaults"
    by (simp_all add: defaults_def)
  show ?thesis
    unfolding o renderMarkdown_def r t c
    by (simp add: run_simps b calm_def always_def)
qed

section \<open>The composed document\<close>

text \<open>
  C9. The composed document of a run depends on the configuration, the HTML fragment and
  the stylesheet only. Two runs of \<open>renderMarkdown\<close> with the same options, in which the
  converter returns the same fragment and the stylesheet is read with the same content,
  write and load the same composed document, whatever else differs between the two
  outsides; the document is the template filled with the title, the stylesheet and the
  fragment.
\<close>

theorem composed_document_determined:
  assumes "readFile_utf8 W (src options) = Inr md" "marked W md = Inr html"
    and "readFile_buffer W (resolve P (meta_dir W) ''../css/APS.css'') = Inr css"
    and "readFile_utf8 W' (src options) = Inr md'" "marked W' md' = Inr html"
    and "readFile_buffer W' (resolve P (meta_dir W') ''../css/APS.css'') = Inr css"
  shows "\<forall>d \<in> set (documents (fst (renderMarkdown P W options))).
         \<forall>d' \<in> set (documents (fst (renderMarkdown P W' options))).
           d = d' \<and> d = web (title P options) css html"
  using assms unfolding renderMarkdown_def documents_def
  by (simp add: run_simps split: sum.splits)

theorem composed_document_determined_witness:
  "documents (fst (renderMarkdown (posix ''/'') calm (paper\<lparr>outputHTML := True\<rparr>))) \<noteq> []
   \<and> documents (fst (renderMarkdown (posix ''/'')
        (calm\<lparr>readFile_utf8 := always (Inr ''Title''), launch := always (Inl Thrown)\<rparr>)
        (paper\<lparr>outputHTML := True\<rparr>))) \<noteq> []
   \<and> hd (documents (fst (renderMarkdown (posix ''/'') calm (paper\<lparr>outputHTML := True\<rparr>))))
     = hd (documents (fst (renderMarkdown (posix ''/'')
        (calm\<lparr>readFile_utf8 := always (Inr ''Title''), launch := always (Inl Thrown)\<rparr>)
        (paper\<lparr>outputHTML := True\<rparr>))))"
proof -
  let ?o = "paper\<lparr>outputHTML := True\<rparr>"
  let ?W = "calm\<lparr>readFile_utf8 := always (Inr ''Title''), launch := always (Inl Thrown)\<rparr>"
  have o: "outputHTML ?o"
    by (simp add: paper_def defaults_def)
  have a: "documents (fst (renderMarkdown (posix ''/'') calm ?o)) \<noteq> []"
    using o by (simp add: renderMarkdown_def run_simps calm_def always_def documents_def
          List.map_filter_simps)
  have b: "documents (fst (renderMarkdown (posix ''/'') ?W ?o)) \<noteq> []"
    using o by (simp add: renderMarkdown_def run_simps calm_def always_def documents_def
          List.map_filter_simps)
  have "hd (documents (fst (renderMarkdown (posix ''/'') calm ?o)))
      = hd (documents (fst (renderMarkdown (posix ''/'') ?W ?o)))"
    using hd_in_set [OF a] hd_in_set [OF b]
      composed_document_determined [where W = calm and W' = ?W and options = ?o
        and P = "posix ''/''" and md = "''# Title''" and md' = "''Title''"
        and html = "''<h1>Title</h1>''" and css = "''h1 { color: red }''"]
    by (simp add: calm_def always_def)
  with a b show ?thesis by simp
qed

section \<open>Repeated keys\<close>

text \<open>
  C10. The arguments are handled from left to right, and a repeated key is no error: an
  argument list that is not malformed resolves, and the Configuration holds, for each of
  \<open>--src\<close>, \<open>--out\<close> and \<open>--browser\<close>, what the last argument with that key gives,
  however many arguments with the same key come before it.
\<close>

theorem last_occurrence_wins:
  assumes "\<not> malformed args" "\<forall>p. resolve P cwd p \<noteq> []"
    and "args = pre @ (k @ ''='' @ v) # post" "\<forall>a \<in> set post. key a \<noteq> k"
  shows "\<exists>c. Options P args cwd = Inr c
    \<and> (k = ''--src'' \<longrightarrow> src c = resolve P cwd (if endsWith v ''.md'' then v else v @ ''.md''))
    \<and> (k = ''--out'' \<longrightarrow> out c = resolve P cwd (if endsWith v ''.pdf'' then v else v @ ''.pdf''))
    \<and> (k = ''--browser'' \<longrightarrow> browser c = v)"
proof -
  from assms(1,2) obtain c where c: "Options P args cwd = Inr c"
    using Options_succeeds_iff by blast
  have "src c = resolve P cwd (if endsWith v ''.md'' then v else v @ ''.md'')"
    if "k = ''--src''"
    using that c assms(3,4) Options_src_last [of P pre v post cwd c] by simp
  moreover have "out c = resolve P cwd (if endsWith v ''.pdf'' then v else v @ ''.pdf'')"
    if "k = ''--out''"
    using that c assms(2,3,4) Options_out_last [of P pre v post cwd c] by simp
  moreover have "browser c = v" if "k = ''--browser''"
    using that c assms(3,4) Options_browser_last [of P pre v post cwd c] by simp
  ultimately show ?thesis using c by blast
qed

theorem last_occurrence_wins_witness:
  "\<not> malformed [''--src=a'', ''--browser=x'', ''--src=b.md'', ''--out=o1'', ''--browser=y'',
        ''--out=o2'']
   \<and> Options (posix ''/'') [''--src=a'', ''--browser=x'', ''--src=b.md'', ''--out=o1'',
        ''--browser=y'', ''--out=o2''] ''/docs''
       = Inr (defaults\<lparr>src := ''/docs/b.md'', out := ''/docs/o2.pdf'', browser := ''y''\<rparr>)
   \<and> resolve (posix ''/'') ''/docs'' ''b.md'' = ''/docs/b.md''
   \<and> resolve (posix ''/'') ''/docs'' (''o2'' @ ''.pdf'') = ''/docs/o2.pdf''"
proof -
  let ?args = "[''--src=a'', ''--browser=x'', ''--src=b.md'', ''--out=o1'', ''--browser=y'',
        ''--out=o2'']"
  have m: "\<not> malformed ?args"
    by (simp add: malformed_def malformedArg_def key_def rest_def)
  have o: "Options (posix ''/'') ?args ''/docs''
       = Inr (defaults\<lparr>src := ''/docs/b.md'', out := ''/docs/o2.pdf'', browser := ''y''\<rparr>)"
    by code_simp
  have e: "endsWith ''b.md'' ''.md''" "\<not> endsWith ''o2'' ''.pdf''"
    by (simp_all add: endsWith_def)
  have s: "src (defaults\<lparr>src := ''/docs/b.md'', out := ''/docs/o2.pdf'', browser := ''y''\<rparr>)
      = resolve (posix ''/'') ''/docs'' ''b.md''"
    using e o last_occurrence_wins [where P = "posix ''/''" and cwd = "''/docs''"
        and pre = "[''--src=a'', ''--browser=x'']" and k = "''--src''" and v = "''b.md''"
        and post = "[''--out=o1'', ''--browser=y'', ''--out=o2'']", OF m posix_not_Nil]
    by (simp add: key_def)
  have t: "out (defaults\<lparr>src := ''/docs/b.md'', out := ''/docs/o2.pdf'', browser := ''y''\<rparr>)
      = resolve (posix ''/'') ''/docs'' (''o2'' @ ''.pdf'')"
    using e o last_occurrence_wins [where P = "posix ''/''" and cwd = "''/docs''"
        and pre = "[''--src=a'', ''--browser=x'', ''--src=b.md'', ''--out=o1'', ''--browser=y'']"
        and k = "''--out''" and v = "''o2''" and post = "[]", OF m posix_not_Nil]
    by (simp add: key_def)
  show ?thesis using m o s t by (simp add: defaults_def)
qed

end
